theory Spec2Isabelle
  imports Main "HOL-Library.Word"
begin

unbundle bit_operations_syntax

section \<open>Protocol constants\<close>

text \<open>
  The module-level constants of \<^verbatim>\<open>switchbot/__init__.py\<close>. A Python \<^verbatim>\<open>str\<close> is
  modelled as a \<^typ>\<open>string\<close> in which every \<^typ>\<open>char\<close> stands for one code point below 256;
  the ASCII characters are those below 128.
\<close>

definition DEFAULT_RETRY_COUNT :: int where
  "DEFAULT_RETRY_COUNT = 3"

definition KEY_PASSWORD_PREFIX :: string where
  "KEY_PASSWORD_PREFIX = ''5711''"

definition PRESS_KEY :: string where
  "PRESS_KEY = ''570100''"

definition ON_KEY :: string where
  "ON_KEY = ''570101''"

definition OFF_KEY :: string where
  "OFF_KEY = ''570102''"

definition OPEN_KEY :: string where
  "OPEN_KEY = ''570f450105ff00''"

definition CLOSE_KEY :: string where
  "CLOSE_KEY = ''570f450105ff64''"

definition POSITION_KEY :: string where
  "POSITION_KEY = ''570F450105ff''"

definition STOP_KEY :: string where
  "STOP_KEY = ''570F450100ff''"

definition ON_KEY_SUFFIX :: string where
  "ON_KEY_SUFFIX = ''01''"

definition OFF_KEY_SUFFIX :: string where
  "OFF_KEY_SUFFIX = ''02''"

definition PRESS_KEY_SUFFIX :: string where
  "PRESS_KEY_SUFFIX = ''00''"

section \<open>Exceptions\<close>

text \<open>
  The exceptions that the modelled code can meet. Only \<open>BTLEException\<close> is ever caught by
  the driver; the others leave the function in which they arise.
\<close>

datatype error =
    BTLEException
  | BinasciiError
  | UnicodeEncodeError
  | ValueError
  | AttributeError

section \<open>Library functions used by the driver\<close>

text \<open>
  The driver calls a few functions of the Python standard library. They are modelled here
  as far as the driver exercises them. Byte strings are lists of \<^typ>\<open>char\<close>, one per byte.
\<close>

subsection \<open>Hexadecimal digits\<close>

definition is_ascii :: "char \<Rightarrow> bool" where
  "is_ascii c = ((of_char c :: nat) < 128)"

definition hex_val :: "char \<Rightarrow> nat option" where
  "hex_val c =
     (let n = (of_char c :: nat) in
      if 48 \<le> n \<and> n \<le> 57 then Some (n - 48)
      else if 97 \<le> n \<and> n \<le> 102 then Some (n - 87)
      else if 65 \<le> n \<and> n \<le> 70 then Some (n - 55)
      else None)"

definition is_hex :: "char \<Rightarrow> bool" where
  "is_hex c = (hex_val c \<noteq> None)"

definition is_lower_hex :: "char \<Rightarrow> bool" where
  "is_lower_hex c = (is_hex c \<and> \<not> (65 \<le> (of_char c :: nat) \<and> (of_char c :: nat) \<le> 70))"

definition lower_digit :: "nat \<Rightarrow> char" where
  "lower_digit n = char_of (if n < 10 then 48 + n else 87 + n)"

definition upper_digit :: "nat \<Rightarrow> char" where
  "upper_digit n = char_of (if n < 10 then 48 + n else 55 + n)"

text \<open>The number that a string of hexadecimal digits denotes, most significant digit first.\<close>

definition hex_value :: "string \<Rightarrow> nat" where
  "hex_value s = foldl (\<lambda>a c. case hex_val c of Some v \<Rightarrow> 16 * a + v | None \<Rightarrow> a) 0 s"

subsection \<open>String formatting\<close>

text \<open>\<^verbatim>\<open>'%x' % n\<close> for a non-negative \<open>n\<close>: lowercase digits, no padding.\<close>

fun fmt_x :: "nat \<Rightarrow> string" where
  "fmt_x n = (if n < 16 then [lower_digit n] else fmt_x (n div 16) @ [lower_digit (n mod 16)])"

declare fmt_x.simps [simp del]

text \<open>\<^verbatim>\<open>'%X' % n\<close> for a non-negative \<open>n\<close>: uppercase digits, no padding.\<close>

fun fmt_X :: "nat \<Rightarrow> string" where
  "fmt_X n = (if n < 16 then [upper_digit n] else fmt_X (n div 16) @ [upper_digit (n mod 16)])"

declare fmt_X.simps [simp del]

text \<open>
  \<^verbatim>\<open>'%0.2X' % i\<close>: the precision asks for at least two digits, filled with zeros on the
  left; a negative number keeps its sign in front of the digits.
\<close>

definition fmt_02X :: "int \<Rightarrow> string" where
  "fmt_02X i =
     (let digits = fmt_X (nat \<bar>i\<bar>)
      in (if i < 0 then ''-'' else []) @ replicate (2 - length digits) CHR ''0'' @ digits)"

subsection \<open>Encoding and decoding\<close>

text \<open>
  \<^verbatim>\<open>s.encode('ascii')\<close> and \<^verbatim>\<open>bytearray(s, 'ascii')\<close>: one byte per character, an
  exception when a character is not ASCII.
\<close>

definition encode_ascii :: "string \<Rightarrow> error + string" where
  "encode_ascii s = (if list_all is_ascii s then Inr s else Inl UnicodeEncodeError)"

text \<open>
  \<^verbatim>\<open>binascii.a2b_hex\<close>: two hexadecimal digits of either case per byte. An odd length
  or another character raises \<^verbatim>\<open>binascii.Error\<close>.
\<close>

fun a2b_pairs :: "string \<Rightarrow> string option" where
  "a2b_pairs [] = Some []"
| "a2b_pairs [c] = None"
| "a2b_pairs (c1 # c2 # cs) =
     (case (hex_val c1, hex_val c2) of
        (Some h, Some l) \<Rightarrow> map_option ((#) (char_of (16 * h + l))) (a2b_pairs cs)
      | _ \<Rightarrow> None)"

definition a2b_hex :: "string \<Rightarrow> error + string" where
  "a2b_hex s =
     (if \<not> list_all is_ascii s then Inl ValueError
      else case a2b_pairs s of None \<Rightarrow> Inl BinasciiError | Some bs \<Rightarrow> Inr bs)"

subsection \<open>CRC-32\<close>

text \<open>
  \<^verbatim>\<open>binascii.crc32\<close>: the CRC-32 of zlib (reflected polynomial \<open>0xEDB88320\<close>, initial
  value and final complement \<open>0xFFFFFFFF\<close>), computed bit by bit.
\<close>

definition crc32_shift :: "32 word \<Rightarrow> 32 word" where
  "crc32_shift c = (if bit c 0 then drop_bit 1 c XOR 0xEDB88320 else drop_bit 1 c)"

definition crc32_update :: "32 word \<Rightarrow> char \<Rightarrow> 32 word" where
  "crc32_update c b = (crc32_shift ^^ 8) (c XOR of_char b)"

definition crc32 :: "string \<Rightarrow> 32 word" where
  "crc32 bs = foldl crc32_update 0xFFFFFFFF bs XOR 0xFFFFFFFF"

subsection \<open>Slices, integer parsing, lower case\<close>

text \<open>
  \<^verbatim>\<open>xs[lo:hi]\<close> with step 1: a negative bound counts from the end, and both bounds are
  clamped to the list. \<open>None\<close> for \<open>hi\<close> is the omitted bound of \<^verbatim>\<open>xs[lo:]\<close>.
\<close>

definition slice_index :: "nat \<Rightarrow> int \<Rightarrow> nat" where
  "slice_index n i = (if i < 0 then nat (max (int n + i) 0) else min (nat i) n)"

definition py_slice :: "'a list \<Rightarrow> int \<Rightarrow> int option \<Rightarrow> 'a list" where
  "py_slice xs lo hi =
     (let n = length xs;
          a = slice_index n lo;
          b = (case hi of None \<Rightarrow> n | Some h \<Rightarrow> slice_index n h)
      in take (b - a) (drop a xs))"

text \<open>
  \<^verbatim>\<open>int(b, 16)\<close> on a byte string, as CPython parses it: white space around the number, an
  optional sign, an optional \<^verbatim>\<open>0x\<close> prefix, then hexadecimal digits that single
  underscores may separate. \<open>None\<close> stands for the \<^verbatim>\<open>ValueError\<close>.
\<close>

definition is_space :: "char \<Rightarrow> bool" where
  "is_space c = (let n = (of_char c :: nat) in (9 \<le> n \<and> n \<le> 13) \<or> n = 32)"

definition digit_or_underscore :: "char \<Rightarrow> bool" where
  "digit_or_underscore c = (is_hex c \<or> c = CHR ''_'')"

fun double_underscore :: "string \<Rightarrow> bool" where
  "double_underscore (a # b # cs) =
     ((a = CHR ''_'' \<and> b = CHR ''_'') \<or> double_underscore (b # cs))"
| "double_underscore _ = False"

definition strip_sign :: "string \<Rightarrow> bool \<times> string" where
  "strip_sign s =
     (case s of
        [] \<Rightarrow> (False, s)
      | c # r \<Rightarrow> if c = CHR ''+'' then (False, r) else if c = CHR ''-'' then (True, r) else (False, s))"

definition strip_0x :: "string \<Rightarrow> string" where
  "strip_0x s =
     (case s of
        c0 # cx # r \<Rightarrow>
          if c0 = CHR ''0'' \<and> (cx = CHR ''x'' \<or> cx = CHR ''X'')
          then (case r of [] \<Rightarrow> r | u # r' \<Rightarrow> if u = CHR ''_'' then r' else r)
          else s
      | _ \<Rightarrow> s)"

definition py_int16 :: "string \<Rightarrow> int option" where
  "py_int16 s =
     (let (negative, s2) = strip_sign (dropWhile is_space s);
          s3 = strip_0x s2;
          body = takeWhile digit_or_underscore s3;
          rest = dropWhile is_space (dropWhile digit_or_underscore s3)
      in if body = [] \<or> hd body = CHR ''_'' \<or> last body = CHR ''_''
            \<or> double_underscore body \<or> rest \<noteq> []
         then None
         else Some ((if negative then - 1 else 1) * int (hex_value body)))"

text \<open>
  \<^verbatim>\<open>str.lower()\<close> on code points below 256: the ASCII capitals and the Latin-1 capitals
  (\<open>0xC0\<close> to \<open>0xDE\<close> without the multiplication sign \<open>0xD7\<close>) move up by 32.
\<close>

definition lower_char :: "char \<Rightarrow> char" where
  "lower_char c =
     (let n = (of_char c :: nat)
      in if (65 \<le> n \<and> n \<le> 90) \<or> (192 \<le> n \<and> n \<le> 222 \<and> n \<noteq> 215) then char_of (n + 32) else c)"

definition lower :: "string \<Rightarrow> string" where
  "lower s = map lower_char s"


section \<open>The device object\<close>

text \<open>
  \<^verbatim>\<open>SwitchbotDevice\<close> is a record of its attributes (the leading underscore of the
  Python names is dropped). \<open>device\<close> is the connection handle: \<open>None\<close> as in Python,
  \<open>Some i\<close> for the peripheral that the \<open>i\<close>-th connection attempt returned.
  \<^verbatim>\<open>SwitchbotCurtain\<close> extends the record, as the subclass extends the class.
\<close>

record switchbot_device =
  interface :: "int option"
  mac :: string
  device :: "nat option"
  retry_count :: int
  password_encoded :: "string option"

record switchbot_curtain = switchbot_device +
  reverse :: bool
  pos :: int
  light_level :: int
  battery_percent :: int

text \<open>
  \<^verbatim>\<open>SwitchbotDevice.__init__\<close>. The argument \<open>more\<close> carries the attributes that a
  subclass has set before it calls the base constructor. A password that is not ASCII
  makes \<^verbatim>\<open>password.encode('ascii')\<close> raise. The mask \<^verbatim>\<open>& 0xffffffff\<close> is kept as
  written.
\<close>

definition init_device ::
  "string \<Rightarrow> int \<Rightarrow> string option \<Rightarrow> int option \<Rightarrow> 'a \<Rightarrow> error + 'a switchbot_device_scheme"
where
  "init_device mac' retry_count' password interface' more' =
     (let self = \<lparr>interface = interface', mac = mac', device = None,
                  retry_count = retry_count', password_encoded = None, \<dots> = more'\<rparr>
      in if password = None \<or> password = Some []
         then Inr (self\<lparr>password_encoded := None\<rparr>)
         else (case encode_ascii (case password of Some p \<Rightarrow> p | None \<Rightarrow> []) of
                 Inl e \<Rightarrow> Inl e
               | Inr bytes \<Rightarrow>
                   Inr (self\<lparr>password_encoded :=
                          Some (fmt_x (unat (crc32 bytes AND 0xffffffff)))\<rparr>)))"

text \<open>\<^verbatim>\<open>SwitchbotCurtain.__init__\<close> with the keyword argument \<^verbatim>\<open>reverse_mode\<close>.\<close>

definition init_curtain ::
  "string \<Rightarrow> int \<Rightarrow> string option \<Rightarrow> int option \<Rightarrow> bool \<Rightarrow> error + switchbot_curtain"
where
  "init_curtain mac' retry_count' password interface' reverse_mode =
     init_device mac' retry_count' password interface'
       \<lparr>reverse = reverse_mode, pos = 0, light_level = 0, battery_percent = 0\<rparr>"

text \<open>\<^verbatim>\<open>SwitchbotDevice._commandkey\<close>.\<close>

definition commandkey :: "'a switchbot_device_scheme \<Rightarrow> string \<Rightarrow> string" where
  "commandkey self key =
     (case password_encoded self of
        None \<Rightarrow> key
      | Some pw \<Rightarrow>
          (let key_suffix =
                 (if key = ON_KEY then ON_KEY_SUFFIX
                  else if key = OFF_KEY then OFF_KEY_SUFFIX
                  else PRESS_KEY_SUFFIX)
           in KEY_PASSWORD_PREFIX @ pw @ key_suffix))"

text \<open>\<^verbatim>\<open>SwitchbotDevice.get_mac\<close> and the getters of the curtain.\<close>

definition get_mac :: "'a switchbot_device_scheme \<Rightarrow> string" where
  "get_mac self = mac self"

definition get_position :: "'a switchbot_curtain_scheme \<Rightarrow> int" where
  "get_position self = pos self"

definition get_battery_percent :: "'a switchbot_curtain_scheme \<Rightarrow> int" where
  "get_battery_percent self = battery_percent self"

definition get_light_level :: "'a switchbot_curtain_scheme \<Rightarrow> int" where
  "get_light_level self = light_level self"

definition is_reversed :: "'a switchbot_curtain_scheme \<Rightarrow> bool" where
  "is_reversed self = reverse self"

section \<open>The transport\<close>

text \<open>
  The library \<^verbatim>\<open>bluepy\<close> is outside the driver. Its behaviour is a parameter: for each
  kind of call, what the \<open>i\<close>-th call of that kind does (counting from 0).
  \<^item> \<open>connect_ok i\<close>: the \<open>i\<close>-th construction of a \<^verbatim>\<open>Peripheral\<close> succeeds;
    otherwise it raises \<^verbatim>\<open>BTLEException\<close>.
  \<^item> \<open>writekey_out i\<close>: what the transport does inside the \<open>i\<close>-th run of
    \<^verbatim>\<open>_writekey\<close>: the lookup of the service or characteristic raises, the write raises,
    the write returns a false value, or the write returns a true value.
  \<^item> \<open>disconnect_ok i\<close>: the \<open>i\<close>-th \<^verbatim>\<open>disconnect()\<close> succeeds; otherwise it raises
    \<^verbatim>\<open>BTLEException\<close>.
  The log counts the calls that were made and keeps the payloads handed to
  \<^verbatim>\<open>hand.write\<close>. The recursion limit of the interpreter is not modelled.
\<close>

datatype write_outcome = LookupExc | WriteExc | NoAck | Ack

record transport =
  connect_ok :: "nat \<Rightarrow> bool"
  writekey_out :: "nat \<Rightarrow> write_outcome"
  disconnect_ok :: "nat \<Rightarrow> bool"

record log =
  connect_calls :: nat
  opened :: nat
  writekey_calls :: nat
  written :: "string list"
  disconnect_calls :: nat
  sleeps :: nat

definition log0 :: log where
  "log0 = \<lparr>connect_calls = 0, opened = 0, writekey_calls = 0, written = [],
           disconnect_calls = 0, sleeps = 0\<rparr>"

section \<open>The session: connect, write, disconnect, retry\<close>

text \<open>
  Every method takes the object and the log and returns them updated, next to its
  result: \<open>Inl e\<close> when the exception \<open>e\<close> leaves the method, \<open>Inr v\<close> when it returns
  \<open>v\<close>.
\<close>

text \<open>\<^verbatim>\<open>SwitchbotDevice._connect\<close>.\<close>

definition connect ::
  "transport \<Rightarrow> 'a switchbot_device_scheme \<times> log
     \<Rightarrow> (error + unit) \<times> 'a switchbot_device_scheme \<times> log"
where
  "connect T = (\<lambda>(self, L).
     if device self \<noteq> None then (Inr (), self, L)
     else (let i = connect_calls L; L1 = L\<lparr>connect_calls := i + 1\<rparr>
           in if connect_ok T i
              then (Inr (), self\<lparr>device := Some i\<rparr>, L1\<lparr>opened := opened L1 + 1\<rparr>)
              else (Inl BTLEException, self\<lparr>device := None\<rparr>, L1)))"

text \<open>
  \<^verbatim>\<open>SwitchbotDevice._disconnect\<close>: the exception of \<^verbatim>\<open>disconnect()\<close> is caught, and the
  \<^verbatim>\<open>finally\<close> clause clears the handle in either case.
\<close>

definition disconnect ::
  "transport \<Rightarrow> 'a switchbot_device_scheme \<times> log \<Rightarrow> 'a switchbot_device_scheme \<times> log"
where
  "disconnect T = (\<lambda>(self, L).
     if device self = None then (self, L)
     else (let i = disconnect_calls L; L1 = L\<lparr>disconnect_calls := i + 1\<rparr>
           in if disconnect_ok T i
              then (self\<lparr>device := None\<rparr>, L1)
              else (self\<lparr>device := None\<rparr>, L1)))"

text \<open>
  \<^verbatim>\<open>SwitchbotDevice._writekey\<close>. Without a handle the attribute access on \<^verbatim>\<open>None\<close>
  raises. The payload is decoded after the two lookups and before the write.
\<close>

definition writekey ::
  "transport \<Rightarrow> string \<Rightarrow> 'a switchbot_device_scheme \<times> log
     \<Rightarrow> (error + bool) \<times> 'a switchbot_device_scheme \<times> log"
where
  "writekey T key = (\<lambda>(self, L).
     if device self = None then (Inl AttributeError, self, L)
     else (let i = writekey_calls L; L1 = L\<lparr>writekey_calls := i + 1\<rparr>
           in if writekey_out T i = LookupExc then (Inl BTLEException, self, L1)
              else (case a2b_hex key of
                      Inl e \<Rightarrow> (Inl e, self, L1)
                    | Inr bytes \<Rightarrow>
                        (let L2 = L1\<lparr>written := written L1 @ [bytes]\<rparr>
                         in if writekey_out T i = WriteExc then (Inl BTLEException, self, L2)
                            else (Inr (writekey_out T i = Ack), self, L2)))))"


text \<open>
  The \<^verbatim>\<open>try\<close> statement of \<^verbatim>\<open>_sendcommand\<close>, one attempt: connect and write, catch
  \<^verbatim>\<open>BTLEException\<close>, and disconnect in the \<^verbatim>\<open>finally\<close> clause, also when another
  exception is on its way out. The result is \<^verbatim>\<open>send_success\<close>, or the exception that
  was not caught.
\<close>

definition attempt ::
  "transport \<Rightarrow> string \<Rightarrow> 'a switchbot_device_scheme \<times> log
     \<Rightarrow> (error + bool) \<times> 'a switchbot_device_scheme \<times> log"
where
  "attempt T command s =
     (let (r, s2) =
            (case connect T s of
               (Inl e, s1) \<Rightarrow> (Inl e, s1)
             | (Inr _, s1) \<Rightarrow> writekey T command s1);
          s3 = disconnect T s2
      in case r of
           Inl e \<Rightarrow> if e = BTLEException then (Inr False, s3) else (Inl e, s3)
         | Inr send_success \<Rightarrow> (Inr send_success, s3))"

text \<open>\<^verbatim>\<open>time.sleep(DEFAULT_RETRY_TIMEOUT)\<close>.\<close>

definition sleep :: "'s \<times> log \<Rightarrow> 's \<times> log" where
  "sleep = (\<lambda>(self, L). (self, L\<lparr>sleeps := sleeps L + 1\<rparr>))"

text \<open>\<^verbatim>\<open>SwitchbotDevice._sendcommand\<close>: the recursion of the source, on the retry count.\<close>

function sendcommand ::
  "transport \<Rightarrow> string \<Rightarrow> int \<Rightarrow> 'a switchbot_device_scheme \<times> log
     \<Rightarrow> (error + bool) \<times> 'a switchbot_device_scheme \<times> log"
where
  "sendcommand T key retry s =
     (let command = commandkey (fst s) key;
          (r, s') = attempt T command s
      in case r of
           Inl e \<Rightarrow> (Inl e, s')
         | Inr send_success \<Rightarrow>
             if send_success then (Inr True, s')
             else if retry < 1 then (Inr False, s')
             else sendcommand T key (retry - 1) (sleep s'))"
  by pat_completeness auto
termination
  by (relation "measure (\<lambda>(T, key, retry, s). nat retry)") auto

declare sendcommand.simps [simp del]

section \<open>The facades\<close>

text \<open>\<^verbatim>\<open>Switchbot.turn_on\<close>, \<^verbatim>\<open>turn_off\<close> and \<^verbatim>\<open>press\<close>.\<close>

definition turn_on ::
  "transport \<Rightarrow> 'a switchbot_device_scheme \<times> log
     \<Rightarrow> (error + bool) \<times> 'a switchbot_device_scheme \<times> log"
where
  "turn_on T s = sendcommand T ON_KEY (retry_count (fst s)) s"

definition turn_off ::
  "transport \<Rightarrow> 'a switchbot_device_scheme \<times> log
     \<Rightarrow> (error + bool) \<times> 'a switchbot_device_scheme \<times> log"
where
  "turn_off T s = sendcommand T OFF_KEY (retry_count (fst s)) s"

definition press ::
  "transport \<Rightarrow> 'a switchbot_device_scheme \<times> log
     \<Rightarrow> (error + bool) \<times> 'a switchbot_device_scheme \<times> log"
where
  "press T s = sendcommand T PRESS_KEY (retry_count (fst s)) s"

text \<open>
  \<^verbatim>\<open>SwitchbotCurtain.open\<close>, \<^verbatim>\<open>close\<close>, \<^verbatim>\<open>stop\<close> and \<^verbatim>\<open>set_position\<close>. The cached
  position is assigned before \<^verbatim>\<open>_sendcommand\<close> is called.
\<close>

definition open_curtain ::
  "transport \<Rightarrow> 'a switchbot_curtain_scheme \<times> log
     \<Rightarrow> (error + bool) \<times> 'a switchbot_curtain_scheme \<times> log"
where
  "open_curtain T = (\<lambda>(self, L).
     (let self1 = self\<lparr>pos := (if reverse self then 100 else 0)\<rparr>
      in sendcommand T OPEN_KEY (retry_count self1) (self1, L)))"

definition close_curtain ::
  "transport \<Rightarrow> 'a switchbot_curtain_scheme \<times> log
     \<Rightarrow> (error + bool) \<times> 'a switchbot_curtain_scheme \<times> log"
where
  "close_curtain T = (\<lambda>(self, L).
     (let self1 = self\<lparr>pos := (if reverse self then 0 else 100)\<rparr>
      in sendcommand T CLOSE_KEY (retry_count self1) (self1, L)))"

definition stop ::
  "transport \<Rightarrow> 'a switchbot_curtain_scheme \<times> log
     \<Rightarrow> (error + bool) \<times> 'a switchbot_curtain_scheme \<times> log"
where
  "stop T = (\<lambda>(self, L). sendcommand T STOP_KEY (retry_count self) (self, L))"

definition set_position ::
  "transport \<Rightarrow> int \<Rightarrow> 'a switchbot_curtain_scheme \<times> log
     \<Rightarrow> (error + bool) \<times> 'a switchbot_curtain_scheme \<times> log"
where
  "set_position T position = (\<lambda>(self, L).
     (let position1 = (if reverse self then 100 - position else position);
          self1 = self\<lparr>pos := position1\<rparr>;
          hex_position = fmt_02X position1
      in sendcommand T (POSITION_KEY @ hex_position) (retry_count self1) (self1, L)))"

section \<open>The advertisement decoder\<close>

text \<open>
  A discovered device, as the scanner hands it to the delegate: its address and its scan
  data, a list of triples of type code, description and value text.
\<close>

record scan_entry =
  addr :: string
  scan_data :: "(int \<times> string \<times> string) list"

text \<open>
  The loop of \<^verbatim>\<open>handleDiscovery\<close> over the scan data. The three attributes are assigned
  one after the other, so an exception in a later conversion leaves the earlier
  assignments in place and ends the loop. The result is the curtain object and the
  exception that leaves the loop, if there is one.
\<close>

fun handle_scan_data ::
  "(int \<times> string \<times> string) list \<Rightarrow> 'a switchbot_curtain_scheme
     \<Rightarrow> 'a switchbot_curtain_scheme \<times> error option"
where
  "handle_scan_data [] driver = (driver, None)"
| "handle_scan_data ((adtype, desc, value) # rest) driver =
     (if adtype = 22 then
        (case encode_ascii value of
           Inl e \<Rightarrow> (driver, Some e)
         | Inr barray \<Rightarrow>
             (case py_int16 (py_slice barray (- 6) (Some (- 4))) of
                None \<Rightarrow> (driver, Some ValueError)
              | Some b \<Rightarrow>
                  (let driver1 = driver\<lparr>battery_percent := b\<rparr>
                   in case py_int16 (py_slice barray (- 4) (Some (- 2))) of
                        None \<Rightarrow> (driver1, Some ValueError)
                      | Some p \<Rightarrow>
                          (let driver2 = driver1\<lparr>pos := p\<rparr>
                           in case py_int16 (py_slice barray (- 2) None) of
                                None \<Rightarrow> (driver2, Some ValueError)
                              | Some l \<Rightarrow>
                                  handle_scan_data rest (driver2\<lparr>light_level := l\<rparr>)))))
      else handle_scan_data rest driver)"

text \<open>\<^verbatim>\<open>ScanSwitchBotNotificationDelegate.handleDiscovery\<close>.\<close>

definition handleDiscovery ::
  "'a switchbot_curtain_scheme \<Rightarrow> scan_entry
     \<Rightarrow> 'a switchbot_curtain_scheme \<times> error option"
where
  "handleDiscovery driver dev =
     (if lower (get_mac driver) = lower (addr dev)
      then handle_scan_data (scan_data dev) driver
      else (driver, None))"

section \<open>Auxiliary definitions\<close>

text \<open>
  One attempt in closed form, for the proofs: whether a connection is at hand when the
  write starts, what the attempt returns, and what it adds to the log.
\<close>

definition linked :: "transport \<Rightarrow> 'a switchbot_device_scheme \<Rightarrow> log \<Rightarrow> bool" where
  "linked T self L = (device self \<noteq> None \<or> connect_ok T (connect_calls L))"

definition attempt_result :: "transport \<Rightarrow> string \<Rightarrow> 'a switchbot_device_scheme \<Rightarrow> log \<Rightarrow> error + bool" where
  "attempt_result T c self L =
     (if linked T self L \<and> writekey_out T (writekey_calls L) \<noteq> LookupExc
      then (case a2b_hex c of
              Inl e \<Rightarrow> Inl e
            | Inr bytes \<Rightarrow> Inr (writekey_out T (writekey_calls L) = Ack))
      else Inr False)"

definition attempt_log :: "transport \<Rightarrow> string \<Rightarrow> 'a switchbot_device_scheme \<Rightarrow> log \<Rightarrow> log" where
  "attempt_log T c self L =
     L\<lparr>connect_calls := connect_calls L + (if device self = None then 1 else 0),
       opened := opened L + (if device self = None \<and> connect_ok T (connect_calls L) then 1 else 0),
       writekey_calls := writekey_calls L + (if linked T self L then 1 else 0),
       written := written L @
         (if linked T self L \<and> writekey_out T (writekey_calls L) \<noteq> LookupExc
          then (case a2b_hex c of Inl e \<Rightarrow> [] | Inr bytes \<Rightarrow> [bytes]) else []),
       disconnect_calls := disconnect_calls L + (if linked T self L then 1 else 0)\<rparr>"

text \<open>Concrete objects, transports and frames, on which the results below are run.\<close>

definition bot0 :: switchbot_device where
  "bot0 = \<lparr>interface = None, mac = ''c8:a5:4e:10:22:f3'', device = None, retry_count = 3,
            password_encoded = None\<rparr>"

definition curtain0 :: switchbot_curtain where
  "curtain0 = \<lparr>interface = None, mac = ''e7:4d:36:cf:9a:0b'', device = None, retry_count = 3,
                password_encoded = None, reverse = False, pos = 0, light_level = 0,
                battery_percent = 0\<rparr>"

definition flaky :: "nat \<Rightarrow> transport" where
  "flaky n = \<lparr>connect_ok = (\<lambda>i. True),
               writekey_out = (\<lambda>i. if i < n then NoAck else Ack),
               disconnect_ok = (\<lambda>i. True)\<rparr>"

definition hostile :: transport where
  "hostile = \<lparr>connect_ok = (\<lambda>i. True), writekey_out = (\<lambda>i. WriteExc),
              disconnect_ok = (\<lambda>i. False)\<rparr>"

definition dead :: transport where
  "dead = \<lparr>connect_ok = (\<lambda>i. False), writekey_out = (\<lambda>i. Ack),
           disconnect_ok = (\<lambda>i. True)\<rparr>"

definition frame :: "string \<Rightarrow> scan_entry" where
  "frame value = \<lparr>addr = ''E7:4D:36:CF:9A:0B'',
                   scan_data = [(1, ''Flags'', ''06''), (22, ''16b Service Data'', value)]\<rparr>"

section \<open>Properties of the library functions\<close>

lemmas key_defs =
  KEY_PASSWORD_PREFIX_def PRESS_KEY_def ON_KEY_def OFF_KEY_def OPEN_KEY_def CLOSE_KEY_def
  POSITION_KEY_def STOP_KEY_def ON_KEY_SUFFIX_def OFF_KEY_SUFFIX_def PRESS_KEY_SUFFIX_def

lemma hex_val_lower_digit: "n < 16 \<Longrightarrow> hex_val (lower_digit n) = Some n"
  by (auto simp add: hex_val_def lower_digit_def Let_def)

lemma hex_val_upper_digit: "n < 16 \<Longrightarrow> hex_val (upper_digit n) = Some n"
  by (auto simp add: hex_val_def upper_digit_def Let_def)

lemma is_lower_hex_lower_digit: "n < 16 \<Longrightarrow> is_lower_hex (lower_digit n)"
  by (auto simp add: is_lower_hex_def is_hex_def hex_val_def lower_digit_def Let_def)

lemma hex_char_props:
  "hex_val c = Some v \<Longrightarrow>
     v < 16 \<and> is_hex c \<and> is_ascii c \<and> \<not> is_space c \<and> c \<noteq> CHR ''+'' \<and> c \<noteq> CHR ''-''
     \<and> c \<noteq> CHR ''_'' \<and> c \<noteq> CHR ''x'' \<and> c \<noteq> CHR ''X''"
  by (auto simp add: hex_val_def is_hex_def is_ascii_def is_space_def Let_def split: if_splits)

lemma hex_value_snoc:
  "hex_val c = Some v \<Longrightarrow> hex_value (s @ [c]) = 16 * hex_value s + v"
  by (simp add: hex_value_def)

lemma hex_value_single: "hex_val c = Some v \<Longrightarrow> hex_value [c] = v"
  by (simp add: hex_value_def)

lemma hex_value_fmt_x: "hex_value (fmt_x n) = n"
proof (induction n rule: fmt_x.induct)
  case (1 n)
  show ?case
  proof (cases "n < 16")
    case True
    then show ?thesis
      by (simp add: fmt_x.simps [of n] hex_value_single hex_val_lower_digit)
  next
    case False
    then show ?thesis
      using "1.IH" by (simp add: fmt_x.simps [of n] hex_value_snoc hex_val_lower_digit)
  qed
qed

lemma fmt_x_lower_hex: "list_all is_lower_hex (fmt_x n)"
proof (induction n rule: fmt_x.induct)
  case (1 n)
  show ?case
  proof (cases "n < 16")
    case True
    then show ?thesis by (simp add: fmt_x.simps [of n] is_lower_hex_lower_digit)
  next
    case False
    then show ?thesis
      using "1.IH" by (simp add: fmt_x.simps [of n] is_lower_hex_lower_digit)
  qed
qed

lemma fmt_x_nonempty: "fmt_x n \<noteq> []"
  by (simp add: fmt_x.simps [of n])

lemma lower_digit_zero: "n < 16 \<Longrightarrow> lower_digit n = CHR ''0'' \<Longrightarrow> n = 0"
  using hex_val_lower_digit [of n] by (simp add: hex_val_def)

lemma fmt_x_no_leading_zero: "0 < n \<Longrightarrow> hd (fmt_x n) \<noteq> CHR ''0''"
proof (induction n rule: fmt_x.induct)
  case (1 n)
  show ?case
  proof (cases "n < 16")
    case True
    then show ?thesis
      using "1.prems" lower_digit_zero [of n] by (auto simp add: fmt_x.simps [of n])
  next
    case False
    then have "0 < n div 16" by simp
    then show ?thesis
      using "1.IH" False fmt_x_nonempty [of "n div 16"] by (simp add: fmt_x.simps [of n])
  qed
qed

lemma fmt_x_length: "n < 16 ^ Suc k \<Longrightarrow> length (fmt_x n) \<le> Suc k"
proof (induction k arbitrary: n)
  case 0
  then show ?case by (simp add: fmt_x.simps [of n])
next
  case (Suc k)
  show ?case
  proof (cases "n < 16")
    case True
    then show ?thesis by (simp add: fmt_x.simps [of n])
  next
    case False
    have "n div 16 < 16 ^ Suc k"
      using Suc.prems by (simp add: less_mult_imp_div_less mult.commute)
    then show ?thesis
      using Suc.IH [of "n div 16"] False by (simp add: fmt_x.simps [of n])
  qed
qed

lemma crc32_mask: "(w :: 32 word) AND 0xffffffff = w"
proof -
  have h: "(0xffffffff :: 32 word) = - 1" by simp
  show ?thesis unfolding h by simp
qed

lemma unat_word32_bound: "unat (w :: 32 word) < 16 ^ Suc 7"
  using unsigned_less [of w] by simp

lemma upper_digit_0: "upper_digit 0 = CHR ''0''"
  by code_simp

lemma fmt_02X_byte:
  assumes "0 \<le> q" "q < 256"
  shows "fmt_02X q = [upper_digit (nat q div 16), upper_digit (nat q mod 16)]"
proof (cases "nat q < 16")
  case True
  then show ?thesis
    using assms by (simp add: fmt_02X_def fmt_X.simps [of "nat q"] upper_digit_0)
next
  case False
  moreover have "nat q div 16 < 16" using assms by simp
  ultimately show ?thesis
    using assms
    by (simp add: fmt_02X_def fmt_X.simps [of "nat q"] fmt_X.simps [of "nat q div 16"])
qed

lemma fmt_02X_0: "fmt_02X 0 = ''00''"
  using fmt_02X_byte [of 0] by (simp add: upper_digit_0)

lemma py_int16_pair:
  assumes "hex_val a = Some ha" "hex_val b = Some hb"
  shows "py_int16 [a, b] = Some (int (16 * ha + hb))"
  using hex_char_props [OF assms(1)] hex_char_props [OF assms(2)] assms
  by (simp add: py_int16_def strip_sign_def strip_0x_def digit_or_underscore_def hex_value_def)

lemma py_slice_last_six:
  "py_slice (pre @ [a1, a2, b1, b2, c1, c2]) (- 6) (Some (- 4)) = [a1, a2]"
  "py_slice (pre @ [a1, a2, b1, b2, c1, c2]) (- 4) (Some (- 2)) = [b1, b2]"
  "py_slice (pre @ [a1, a2, b1, b2, c1, c2]) (- 2) None = [c1, c2]"
  by (simp_all add: py_slice_def slice_index_def Let_def nat_add_distrib)


lemma is_ascii_upper_digit: "n < 16 \<Longrightarrow> is_ascii (upper_digit n)"
  using hex_char_props [OF hex_val_upper_digit] by simp

lemma a2b_pairs_append:
  "a2b_pairs xs = Some bs \<Longrightarrow> a2b_pairs ys = Some cs \<Longrightarrow>
   a2b_pairs (xs @ ys) = Some (bs @ cs)"
proof (induction xs arbitrary: bs rule: a2b_pairs.induct)
  case 1
  then show ?case by simp
next
  case (2 c)
  then show ?case by simp
next
  case (3 c1 c2 cs')
  then show ?case by (auto split: option.splits)
qed

lemma a2b_pairs_POSITION_KEY:
  "a2b_pairs POSITION_KEY = Some (map char_of [0x57, 0x0F, 0x45, 0x01, 0x05, 0xFF :: nat])"
  by (simp add: POSITION_KEY_def hex_val_def)

lemma is_ascii_POSITION_KEY: "list_all is_ascii POSITION_KEY"
  by (simp add: POSITION_KEY_def is_ascii_def)

lemma a2b_hex_position:
  assumes "h < 16" "l < 16"
  shows "a2b_hex (POSITION_KEY @ [upper_digit h, upper_digit l]) =
           Inr (map char_of [0x57, 0x0F, 0x45, 0x01, 0x05, 0xFF, 16 * h + l :: nat])"
proof -
  have "a2b_pairs [upper_digit h, upper_digit l] = Some [char_of (16 * h + l)]"
    using assms by (simp add: hex_val_upper_digit)
  then show ?thesis
    using assms a2b_pairs_append [OF a2b_pairs_POSITION_KEY, of "[upper_digit h, upper_digit l]"]
    by (simp add: a2b_hex_def is_ascii_POSITION_KEY is_ascii_upper_digit)
qed

lemma handleDiscovery_decode:
  assumes "list_all is_ascii value"
    and "value = pre @ [a1, a2, b1, b2, c1, c2]"
    and "hex_val a1 = Some x1" "hex_val a2 = Some x2"
    and "hex_val b1 = Some y1" "hex_val b2 = Some y2"
    and "hex_val c1 = Some z1" "hex_val c2 = Some z2"
  shows "handle_scan_data ((22, desc, value) # rest) driver =
           handle_scan_data rest
             (driver\<lparr>battery_percent := int (16 * x1 + x2), pos := int (16 * y1 + y2),
                     light_level := int (16 * z1 + z2)\<rparr>)"
  using assms(1)
  by (simp add: encode_ascii_def assms(2) py_slice_last_six
        py_int16_pair [OF assms(3,4)] py_int16_pair [OF assms(5,6)] py_int16_pair [OF assms(7,8)])

section \<open>Properties of the session\<close>

lemma disconnect_eq:
  "disconnect T (self, L) =
     (self\<lparr>device := None\<rparr>,
      if device self = None then L else L\<lparr>disconnect_calls := disconnect_calls L + 1\<rparr>)"
  by (simp add: disconnect_def Let_def)

lemma a2b_hex_not_BTLE: "a2b_hex c \<noteq> Inl BTLEException"
  by (simp add: a2b_hex_def split: option.splits)

lemma attempt_eq:
  "attempt T c (self, L) = (attempt_result T c self L, self\<lparr>device := None\<rparr>, attempt_log T c self L)"
  using a2b_hex_not_BTLE [of c]
  by (cases "a2b_hex c")
     (auto simp add: attempt_def connect_def writekey_def disconnect_eq linked_def Let_def
        attempt_result_def attempt_log_def)

lemma commandkey_device [simp]: "commandkey (self\<lparr>device := h\<rparr>) key = commandkey self key"
  by (simp add: commandkey_def)

lemma sendcommand_unfold:
  "sendcommand T key retry (self, L) =
     (case attempt_result T (commandkey self key) self L of
        Inl e \<Rightarrow> (Inl e, self\<lparr>device := None\<rparr>, attempt_log T (commandkey self key) self L)
      | Inr b \<Rightarrow>
          if b then (Inr True, self\<lparr>device := None\<rparr>, attempt_log T (commandkey self key) self L)
          else if retry < 1
          then (Inr False, self\<lparr>device := None\<rparr>, attempt_log T (commandkey self key) self L)
          else sendcommand T key (retry - 1)
                 (self\<lparr>device := None\<rparr>,
                  (attempt_log T (commandkey self key) self L)
                    \<lparr>sleeps := sleeps (attempt_log T (commandkey self key) self L) + 1\<rparr>))"
  by (simp add: sendcommand.simps [of T key retry "(self, L)"] attempt_eq sleep_def Let_def
        split: sum.splits)

lemma attempt_result_not_BTLE: "attempt_result T c self L \<noteq> Inl BTLEException"
  using a2b_hex_not_BTLE [of c] by (cases "a2b_hex c") (auto simp add: attempt_result_def)

lemma attempt_log_balance:
  "disconnect_calls (attempt_log T c self L) + opened L =
     disconnect_calls L + opened (attempt_log T c self L) + (if device self = None then 0 else 1)"
  by (auto simp add: attempt_log_def linked_def)

lemma sendcommand_exc:
  "attempt_result T (commandkey self key) self L = Inl e \<Longrightarrow>
   sendcommand T key retry (self, L) =
     (Inl e, self\<lparr>device := None\<rparr>, attempt_log T (commandkey self key) self L)"
  by (simp add: sendcommand_unfold [of T key retry])

lemma sendcommand_ack:
  "attempt_result T (commandkey self key) self L = Inr True \<Longrightarrow>
   sendcommand T key retry (self, L) =
     (Inr True, self\<lparr>device := None\<rparr>, attempt_log T (commandkey self key) self L)"
  by (simp add: sendcommand_unfold [of T key retry])

lemma sendcommand_stop:
  "attempt_result T (commandkey self key) self L = Inr False \<Longrightarrow> retry < 1 \<Longrightarrow>
   sendcommand T key retry (self, L) =
     (Inr False, self\<lparr>device := None\<rparr>, attempt_log T (commandkey self key) self L)"
  by (simp add: sendcommand_unfold [of T key retry])

lemma sendcommand_retry:
  "attempt_result T (commandkey self key) self L = Inr False \<Longrightarrow> \<not> retry < 1 \<Longrightarrow>
   sendcommand T key retry (self, L) =
     sendcommand T key (retry - 1)
       (self\<lparr>device := None\<rparr>,
        (attempt_log T (commandkey self key) self L)
          \<lparr>sleeps := sleeps (attempt_log T (commandkey self key) self L) + 1\<rparr>)"
  by (simp add: sendcommand_unfold [of T key retry])

lemma sendcommand_invariant:
  "\<exists>r L'. sendcommand T key retry (self, L) = (r, self\<lparr>device := None\<rparr>, L')
      \<and> r \<noteq> Inl BTLEException
      \<and> disconnect_calls L' + opened L =
          disconnect_calls L + opened L' + (if device self = None then 0 else 1)"
proof (induction "nat retry" arbitrary: retry self L)
  case 0
  then have stop: "retry < 1" by simp
  let ?r = "attempt_result T (commandkey self key) self L"
  show ?case
  proof (cases ?r)
    case (Inl e)
    then show ?thesis
      using attempt_result_not_BTLE [of T "commandkey self key" self L]
        attempt_log_balance [of T "commandkey self key" self L]
      by (simp add: sendcommand_exc)
  next
    case (Inr b)
    then show ?thesis
      using stop attempt_log_balance [of T "commandkey self key" self L]
      by (cases b) (simp_all add: sendcommand_ack sendcommand_stop)
  qed
next
  case (Suc n)
  then have n: "n = nat (retry - 1)" and go: "\<not> retry < 1" by simp_all
  let ?r = "attempt_result T (commandkey self key) self L"
  let ?L1 = "attempt_log T (commandkey self key) self L"
  obtain r L' where rec:
    "sendcommand T key (retry - 1) (self\<lparr>device := None\<rparr>, ?L1\<lparr>sleeps := sleeps ?L1 + 1\<rparr>)
       = (r, self\<lparr>device := None\<rparr>, L')"
    "r \<noteq> Inl BTLEException"
    "disconnect_calls L' + opened ?L1 = disconnect_calls ?L1 + opened L'"
    using Suc.hyps(1) [OF n, of "self\<lparr>device := None\<rparr>" "?L1\<lparr>sleeps := sleeps ?L1 + 1\<rparr>"]
    by auto
  have bal: "disconnect_calls L' + opened L =
     disconnect_calls L + opened L' + (if device self = None then 0 else 1)"
    using rec(3) attempt_log_balance [of T "commandkey self key" self L] by simp
  show ?case
  proof (cases ?r)
    case (Inl e)
    then show ?thesis
      using attempt_result_not_BTLE [of T "commandkey self key" self L]
        attempt_log_balance [of T "commandkey self key" self L]
      by (simp add: sendcommand_exc)
  next
    case (Inr b)
    show ?thesis
    proof (cases b)
      case True
      then show ?thesis
        using Inr attempt_log_balance [of T "commandkey self key" self L]
        by (simp add: sendcommand_ack)
    next
      case False
      then show ?thesis
        using Inr go rec(1,2) bal by (simp add: sendcommand_retry)
    qed
  qed
qed

lemma sendcommand_self:
  "fst (snd (sendcommand T key retry (self, L))) = self\<lparr>device := None\<rparr>"
  using sendcommand_invariant [of T key retry self L] by auto

lemma attempt_result_disconnect_ok:
  "attempt_result (T\<lparr>disconnect_ok := d\<rparr>) c self L = attempt_result T c self L"
  by (cases "a2b_hex c") (auto simp add: attempt_result_def linked_def)

lemma attempt_log_disconnect_ok:
  "attempt_log (T\<lparr>disconnect_ok := d\<rparr>) c self L = attempt_log T c self L"
  by (cases "a2b_hex c") (auto simp add: attempt_log_def linked_def)

lemma sendcommand_disconnect_ok:
  "sendcommand (T\<lparr>disconnect_ok := d\<rparr>) key retry (self, L) = sendcommand T key retry (self, L)"
proof (induction "nat retry" arbitrary: retry self L)
  case 0
  then have "retry < 1" by simp
  then show ?case
    by (auto simp add: sendcommand_unfold [of _ key retry] attempt_result_disconnect_ok
          attempt_log_disconnect_ok split: sum.splits)
next
  case (Suc n)
  then have n: "n = nat (retry - 1)" by simp
  show ?case
    by (auto simp add: sendcommand_unfold [of _ key retry] attempt_result_disconnect_ok
          attempt_log_disconnect_ok Suc.hyps(1) [OF n] split: sum.splits)
qed


lemma attempt_result_linked:
  "linked T self L \<Longrightarrow> a2b_hex c = Inr bytes \<Longrightarrow>
   attempt_result T c self L = Inr (writekey_out T (writekey_calls L) = Ack)"
  by (auto simp add: attempt_result_def)

lemma attempt_log_linked:
  "linked T self L \<Longrightarrow>
   writekey_calls (attempt_log T c self L) = writekey_calls L + 1
   \<and> disconnect_calls (attempt_log T c self L) = disconnect_calls L + 1
   \<and> sleeps (attempt_log T c self L) = sleeps L"
  by (simp add: attempt_log_def)

lemma sendcommand_succeeds_after:
  assumes conn: "\<forall>i. connect_ok T i"
    and hex: "a2b_hex (commandkey self key) = Inr bytes"
    and fails: "\<forall>i<N. writekey_out T (writekey_calls L + i) \<noteq> Ack"
    and acks: "writekey_out T (writekey_calls L + N) = Ack"
    and budget: "int N \<le> retry"
  shows "\<exists>L'. sendcommand T key retry (self, L) = (Inr True, self\<lparr>device := None\<rparr>, L')
           \<and> writekey_calls L' = writekey_calls L + N + 1
           \<and> disconnect_calls L' = disconnect_calls L + N + 1
           \<and> sleeps L' = sleeps L + N"
  using hex fails acks budget
proof (induction N arbitrary: self L retry)
  case 0
  have l: "linked T self L" using conn by (simp add: linked_def)
  have "attempt_result T (commandkey self key) self L = Inr True"
    using attempt_result_linked [OF l "0.prems"(1)] "0.prems"(3) by simp
  then show ?case
    using attempt_log_linked [OF l, of "commandkey self key"] by (simp add: sendcommand_ack)
next
  case (Suc N)
  have l: "linked T self L" using conn by (simp add: linked_def)
  let ?L1 = "attempt_log T (commandkey self key) self L"
  let ?L2 = "?L1\<lparr>sleeps := sleeps ?L1 + 1\<rparr>"
  have "writekey_out T (writekey_calls L) \<noteq> Ack"
    using Suc.prems(2) by (metis add.right_neutral zero_less_Suc)
  then have r: "attempt_result T (commandkey self key) self L = Inr False"
    using attempt_result_linked [OF l Suc.prems(1)] by simp
  have go: "\<not> retry < 1" using Suc.prems(4) by simp
  have step: "sendcommand T key retry (self, L) =
      sendcommand T key (retry - 1) (self\<lparr>device := None\<rparr>, ?L2)"
    using sendcommand_retry [OF r go] by simp
  have w: "writekey_calls ?L2 = writekey_calls L + 1"
    and d: "disconnect_calls ?L2 = disconnect_calls L + 1"
    and sl: "sleeps ?L2 = sleeps L + 1"
    using attempt_log_linked [OF l, of "commandkey self key"] by simp_all
  have fails': "\<forall>i<N. writekey_out T (writekey_calls ?L2 + i) \<noteq> Ack"
  proof (intro allI impI)
    fix i assume "i < N"
    then have "Suc i < Suc N" by simp
    then have "writekey_out T (writekey_calls L + Suc i) \<noteq> Ack"
      using Suc.prems(2) by blast
    then show "writekey_out T (writekey_calls ?L2 + i) \<noteq> Ack" using w by simp
  qed
  have acks': "writekey_out T (writekey_calls ?L2 + N) = Ack"
    using Suc.prems(3) w by simp
  have hex': "a2b_hex (commandkey (self\<lparr>device := None\<rparr>) key) = Inr bytes"
    using Suc.prems(1) by simp
  have budget': "int N \<le> retry - 1" using Suc.prems(4) by simp
  show ?case
    using Suc.IH [OF hex' fails' acks' budget'] step w d sl by auto
qed

lemma sendcommand_gives_up:
  assumes conn: "\<forall>i. connect_ok T i"
    and hex: "a2b_hex (commandkey self key) = Inr bytes"
    and fails: "\<forall>i\<le>n. writekey_out T (writekey_calls L + i) \<noteq> Ack"
    and budget: "retry = int n"
  shows "\<exists>L'. sendcommand T key retry (self, L) = (Inr False, self\<lparr>device := None\<rparr>, L')
           \<and> writekey_calls L' = writekey_calls L + n + 1
           \<and> disconnect_calls L' = disconnect_calls L + n + 1
           \<and> sleeps L' = sleeps L + n"
  using hex fails budget
proof (induction n arbitrary: self L retry)
  case 0
  have l: "linked T self L" using conn by (simp add: linked_def)
  have "attempt_result T (commandkey self key) self L = Inr False"
    using attempt_result_linked [OF l "0.prems"(1)] "0.prems"(2) by simp
  then show ?case
    using attempt_log_linked [OF l, of "commandkey self key"] "0.prems"(3)
    by (simp add: sendcommand_stop)
next
  case (Suc n)
  have l: "linked T self L" using conn by (simp add: linked_def)
  let ?L1 = "attempt_log T (commandkey self key) self L"
  let ?L2 = "?L1\<lparr>sleeps := sleeps ?L1 + 1\<rparr>"
  have "writekey_out T (writekey_calls L) \<noteq> Ack"
    using Suc.prems(2) by (metis add.right_neutral le0)
  then have r: "attempt_result T (commandkey self key) self L = Inr False"
    using attempt_result_linked [OF l Suc.prems(1)] by simp
  have go: "\<not> retry < 1" using Suc.prems(3) by simp
  have step: "sendcommand T key retry (self, L) =
      sendcommand T key (retry - 1) (self\<lparr>device := None\<rparr>, ?L2)"
    using sendcommand_retry [OF r go] by simp
  have w: "writekey_calls ?L2 = writekey_calls L + 1"
    and d: "disconnect_calls ?L2 = disconnect_calls L + 1"
    and sl: "sleeps ?L2 = sleeps L + 1"
    using attempt_log_linked [OF l, of "commandkey self key"] by simp_all
  have fails': "\<forall>i\<le>n. writekey_out T (writekey_calls ?L2 + i) \<noteq> Ack"
  proof (intro allI impI)
    fix i assume "i \<le> n"
    then have "Suc i \<le> Suc n" by simp
    then have "writekey_out T (writekey_calls L + Suc i) \<noteq> Ack"
      using Suc.prems(2) by blast
    then show "writekey_out T (writekey_calls ?L2 + i) \<noteq> Ack" using w by simp
  qed
  have hex': "a2b_hex (commandkey (self\<lparr>device := None\<rparr>) key) = Inr bytes"
    using Suc.prems(1) by simp
  have budget': "retry - 1 = int n" using Suc.prems(3) by simp
  show ?case
    using Suc.IH [OF hex' fails' budget'] step w d sl by auto
qed


section \<open>Retry budget\<close>

text \<open>
  Claim C2. The transport connects every time; the write fails in the first \<open>N\<close> runs of
  \<^verbatim>\<open>_writekey\<close> (a false result or a \<^verbatim>\<open>BTLEException\<close>) and is acknowledged in run
  \<open>N + 1\<close>; the payload that is written is valid hexadecimal; the retry budget is a
  non-negative integer. Started on a fresh log, \<^verbatim>\<open>_sendcommand\<close> then behaves as follows.
  With a budget of at least \<open>N\<close> it returns \<^verbatim>\<open>True\<close>, and both the number of write
  attempts and the number of \<^verbatim>\<open>disconnect()\<close> calls are exactly \<open>N + 1\<close>: one disconnect
  per attempt, and nothing after the acknowledged write. With a budget below \<open>N\<close> it
  returns \<^verbatim>\<open>False\<close> after exactly \<open>retry + 1\<close> attempts, each with its disconnect.
\<close>

theorem sendcommand_retry_budget:
  assumes conn: "\<forall>i. connect_ok T i"
    and hex: "a2b_hex (commandkey self key) = Inr bytes"
    and fails: "\<forall>i<N. writekey_out T i \<noteq> Ack"
    and acks: "writekey_out T N = Ack"
    and budget: "0 \<le> retry"
  shows "(int N \<le> retry \<longrightarrow>
            fst (sendcommand T key retry (self, log0)) = Inr True
          \<and> disconnect_calls (snd (snd (sendcommand T key retry (self, log0)))) = N + 1
          \<and> writekey_calls (snd (snd (sendcommand T key retry (self, log0)))) = N + 1)
       \<and> (retry < int N \<longrightarrow>
            fst (sendcommand T key retry (self, log0)) = Inr False
          \<and> disconnect_calls (snd (snd (sendcommand T key retry (self, log0)))) = nat retry + 1
          \<and> writekey_calls (snd (snd (sendcommand T key retry (self, log0)))) = nat retry + 1)"
proof (intro conjI impI)
  assume b: "int N \<le> retry"
  have z: "writekey_calls log0 = 0" "disconnect_calls log0 = 0" by (simp_all add: log0_def)
  obtain L' where "sendcommand T key retry (self, log0) = (Inr True, self\<lparr>device := None\<rparr>, L')"
    "writekey_calls L' = N + 1" "disconnect_calls L' = N + 1"
    using sendcommand_succeeds_after [OF conn hex _ _ b, of log0] fails acks z by auto
  then show "fst (sendcommand T key retry (self, log0)) = Inr True"
    "disconnect_calls (snd (snd (sendcommand T key retry (self, log0)))) = N + 1"
    "writekey_calls (snd (snd (sendcommand T key retry (self, log0)))) = N + 1"
    by simp_all
next
  assume b: "retry < int N"
  have z: "writekey_calls log0 = 0" "disconnect_calls log0 = 0" by (simp_all add: log0_def)
  have r: "retry = int (nat retry)" using budget by simp
  have f: "\<forall>i\<le>nat retry. writekey_out T (writekey_calls log0 + i) \<noteq> Ack"
  proof (intro allI impI)
    fix i assume "i \<le> nat retry"
    moreover have "nat retry < N" using b budget by (simp add: nat_less_iff)
    ultimately have "i < N" by simp
    then show "writekey_out T (writekey_calls log0 + i) \<noteq> Ack" using fails z by simp
  qed
  obtain L' where "sendcommand T key retry (self, log0) = (Inr False, self\<lparr>device := None\<rparr>, L')"
    "writekey_calls L' = nat retry + 1" "disconnect_calls L' = nat retry + 1"
    using sendcommand_gives_up [OF conn hex f r] z by auto
  then show "fst (sendcommand T key retry (self, log0)) = Inr False"
    "disconnect_calls (snd (snd (sendcommand T key retry (self, log0)))) = nat retry + 1"
    "writekey_calls (snd (snd (sendcommand T key retry (self, log0)))) = nat retry + 1"
    by simp_all
qed

text \<open>
  The press command on a transport whose write fails twice: a budget of 3 succeeds with
  three disconnects, a budget of 1 gives up after two attempts.
\<close>

theorem sendcommand_retry_budget_witness:
  "fst (sendcommand (flaky 2) PRESS_KEY 3 (bot0, log0)) = Inr True
   \<and> disconnect_calls (snd (snd (sendcommand (flaky 2) PRESS_KEY 3 (bot0, log0)))) = 3
   \<and> writekey_calls (snd (snd (sendcommand (flaky 2) PRESS_KEY 3 (bot0, log0)))) = 3
   \<and> fst (sendcommand (flaky 2) PRESS_KEY 1 (bot0, log0)) = Inr False
   \<and> disconnect_calls (snd (snd (sendcommand (flaky 2) PRESS_KEY 1 (bot0, log0)))) = 2
   \<and> writekey_calls (snd (snd (sendcommand (flaky 2) PRESS_KEY 1 (bot0, log0)))) = 2"
proof -
  have conn: "\<forall>i. connect_ok (flaky 2) i"
    by (simp add: flaky_def)
  have hex: "a2b_hex (commandkey bot0 PRESS_KEY) = Inr (map char_of [0x57, 0x01, 0x00 :: nat])"
    by (simp add: commandkey_def bot0_def PRESS_KEY_def a2b_hex_def is_ascii_def hex_val_def)
  have fails: "\<forall>i<2. writekey_out (flaky 2) i \<noteq> Ack"
    by (simp add: flaky_def)
  have acks: "writekey_out (flaky 2) 2 = Ack"
    by (simp add: flaky_def)
  show ?thesis
    using sendcommand_retry_budget [OF conn hex fails acks, of 3]
      sendcommand_retry_budget [OF conn hex fails acks, of 1]
    by simp
qed


section \<open>Release of the connection handle\<close>

text \<open>
  Claim C3. For every transport, whatever its connects, writes and disconnects do, and for
  every state in which \<^verbatim>\<open>_sendcommand\<close> is called:
  \<^item> after one attempt, and after the whole call, the stored handle is \<^verbatim>\<open>None\<close>, also
    when an exception leaves the call;
  \<^item> \<^verbatim>\<open>disconnect()\<close> is called once for every connection that was opened (and once
    more when a handle was already stored at the start);
  \<^item> no \<^verbatim>\<open>BTLEException\<close> leaves the call, and the outcome of the disconnects has no
    influence on anything the call returns or leaves behind.
\<close>

theorem sendcommand_releases_handle:
  "device (fst (snd (attempt T command (self, L)))) = None
   \<and> disconnect_calls (snd (snd (attempt T command (self, L)))) + opened L =
       disconnect_calls L + opened (snd (snd (attempt T command (self, L))))
         + (if device self = None then 0 else 1)
   \<and> device (fst (snd (sendcommand T key retry (self, L)))) = None
   \<and> disconnect_calls (snd (snd (sendcommand T key retry (self, L)))) + opened L =
       disconnect_calls L + opened (snd (snd (sendcommand T key retry (self, L))))
         + (if device self = None then 0 else 1)
   \<and> fst (sendcommand T key retry (self, L)) \<noteq> Inl BTLEException
   \<and> sendcommand (T\<lparr>disconnect_ok := d\<rparr>) key retry (self, L) = sendcommand T key retry (self, L)"
proof -
  obtain r L' where s: "sendcommand T key retry (self, L) = (r, self\<lparr>device := None\<rparr>, L')"
    "r \<noteq> Inl BTLEException"
    "disconnect_calls L' + opened L =
       disconnect_calls L + opened L' + (if device self = None then 0 else 1)"
    using sendcommand_invariant [of T key retry self L] by blast
  show ?thesis
    using s attempt_log_balance [of T command self L]
    by (simp add: attempt_eq sendcommand_disconnect_ok)
qed

text \<open>
  A transport on which every write and every disconnect raises: three attempts, three
  connections opened and three disconnects, the handle cleared, \<^verbatim>\<open>False\<close> returned.
\<close>

theorem sendcommand_releases_handle_witness:
  "device (fst (snd (sendcommand hostile ON_KEY 2 (bot0, log0)))) = None
   \<and> fst (sendcommand hostile ON_KEY 2 (bot0, log0)) = Inr False
   \<and> opened (snd (snd (sendcommand hostile ON_KEY 2 (bot0, log0)))) = 3
   \<and> disconnect_calls (snd (snd (sendcommand hostile ON_KEY 2 (bot0, log0)))) = 3"
proof -
  have run: "fst (sendcommand hostile ON_KEY 2 (bot0, log0)) = Inr False"
    "opened (snd (snd (sendcommand hostile ON_KEY 2 (bot0, log0)))) = 3"
    by code_simp+
  have start: "opened log0 = 0" "disconnect_calls log0 = 0" "device bot0 = None"
    by (simp_all add: log0_def bot0_def)
  show ?thesis
    using sendcommand_releases_handle [of hostile ON_KEY bot0 log0 ON_KEY 2] run start
    by simp
qed

section \<open>The cached position of the curtain\<close>

text \<open>
  Claim C4. Each curtain command that has a target assigns it to the cached position and
  then calls \<^verbatim>\<open>_sendcommand\<close> on the object that already holds it; the position is
  still there afterwards, for every transport, so whether the send succeeds, fails or
  raises. \<^verbatim>\<open>set_position(p)\<close> caches \<open>p\<close>, in reverse mode \<open>100 - p\<close>; \<^verbatim>\<open>open()\<close>
  caches 0, in reverse mode 100; \<^verbatim>\<open>close()\<close> caches 100, in reverse mode 0.
  \<^verbatim>\<open>stop()\<close> has no target and leaves the cached position as it is.
\<close>

theorem curtain_cache_before_send:
  "set_position T p (self, L) =
     sendcommand T (POSITION_KEY @ fmt_02X (if reverse self then 100 - p else p)) (retry_count self)
       (self\<lparr>pos := (if reverse self then 100 - p else p)\<rparr>, L)
   \<and> pos (fst (snd (set_position T p (self, L)))) = (if reverse self then 100 - p else p)
   \<and> open_curtain T (self, L) =
       sendcommand T OPEN_KEY (retry_count self) (self\<lparr>pos := (if reverse self then 100 else 0)\<rparr>, L)
   \<and> pos (fst (snd (open_curtain T (self, L)))) = (if reverse self then 100 else 0)
   \<and> close_curtain T (self, L) =
       sendcommand T CLOSE_KEY (retry_count self) (self\<lparr>pos := (if reverse self then 0 else 100)\<rparr>, L)
   \<and> pos (fst (snd (close_curtain T (self, L)))) = (if reverse self then 0 else 100)
   \<and> pos (fst (snd (stop T (self, L)))) = pos self"
  by (simp add: set_position_def open_curtain_def close_curtain_def stop_def Let_def
        sendcommand_self)

text \<open>
  \<^verbatim>\<open>set_position(70)\<close> on a curtain that is not reversed caches 70 when the send fails
  (no connection can be made) and when it succeeds; the reversed curtain caches 0 on
  \<^verbatim>\<open>close()\<close> and 100 on \<^verbatim>\<open>open()\<close>.
\<close>

theorem curtain_cache_before_send_witness:
  "fst (set_position dead 70 (curtain0, log0)) = Inr False
   \<and> pos (fst (snd (set_position dead 70 (curtain0, log0)))) = 70
   \<and> fst (set_position (flaky 0) 70 (curtain0, log0)) = Inr True
   \<and> pos (fst (snd (set_position (flaky 0) 70 (curtain0, log0)))) = 70
   \<and> pos (fst (snd (close_curtain dead (curtain0\<lparr>reverse := True\<rparr>, log0)))) = 0
   \<and> pos (fst (snd (open_curtain dead (curtain0\<lparr>reverse := True\<rparr>, log0)))) = 100"
proof -
  have run: "fst (set_position dead 70 (curtain0, log0)) = Inr False"
    "fst (set_position (flaky 0) 70 (curtain0, log0)) = Inr True"
    by code_simp+
  note a = curtain_cache_before_send [of dead 70 curtain0 log0]
  note b = curtain_cache_before_send [of "flaky 0" 70 curtain0 log0]
  note c = curtain_cache_before_send [of dead 70 "curtain0\<lparr>reverse := True\<rparr>" log0]
  have rev: "\<not> reverse curtain0" "reverse (curtain0\<lparr>reverse := True\<rparr>)"
    by (simp_all add: curtain0_def)
  show ?thesis
    using run rev a [THEN conjunct2, THEN conjunct1] b [THEN conjunct2, THEN conjunct1]
      c [THEN conjunct2, THEN conjunct2, THEN conjunct2, THEN conjunct1]
      c [THEN conjunct2, THEN conjunct2, THEN conjunct2, THEN conjunct2, THEN conjunct2,
         THEN conjunct1]
    by simp
qed

section \<open>Command encoding\<close>

text \<open>
  Claim C5. Without an encoded password \<^verbatim>\<open>_commandkey\<close> returns the key unchanged. With
  an encoded password \<open>pw\<close> it returns \<open>5711\<close>, then \<open>pw\<close>, then a suffix of two digits:
  \<open>01\<close> for the on key, \<open>02\<close> for the off key, \<open>00\<close> for every other key, among them
  the press key and all curtain keys. The result is made of these three parts only: the
  key itself is no part of it, two keys that are neither the on key nor the off key give
  the same result, and the result is never one of the driver's keys, since it starts with
  \<open>571\<close> and they start with \<open>570\<close>.
\<close>

theorem commandkey_encoding:
  "(password_encoded self = None \<longrightarrow> commandkey self key = key)
   \<and> (password_encoded self = Some pw \<longrightarrow>
        commandkey self key =
          ''5711'' @ pw @ (if key = ''570101'' then ''01'' else if key = ''570102'' then ''02'' else ''00'')
      \<and> commandkey self ON_KEY = ''5711'' @ pw @ ''01''
      \<and> commandkey self OFF_KEY = ''5711'' @ pw @ ''02''
      \<and> commandkey self PRESS_KEY = ''5711'' @ pw @ ''00''
      \<and> commandkey self OPEN_KEY = ''5711'' @ pw @ ''00''
      \<and> commandkey self CLOSE_KEY = ''5711'' @ pw @ ''00''
      \<and> commandkey self STOP_KEY = ''5711'' @ pw @ ''00''
      \<and> commandkey self (POSITION_KEY @ h) = ''5711'' @ pw @ ''00''
      \<and> (key \<noteq> ON_KEY \<and> key \<noteq> OFF_KEY \<and> key' \<noteq> ON_KEY \<and> key' \<noteq> OFF_KEY \<longrightarrow>
            commandkey self key = commandkey self key')
      \<and> commandkey self key \<notin> {PRESS_KEY, ON_KEY, OFF_KEY, OPEN_KEY, CLOSE_KEY, STOP_KEY}
      \<and> commandkey self key \<noteq> POSITION_KEY @ h)"
proof (cases "password_encoded self")
  case None
  then show ?thesis by (simp add: commandkey_def)
next
  case (Some pw')
  have suffix: "commandkey self k =
      ''5711'' @ pw' @ (if k = ''570101'' then ''01'' else if k = ''570102'' then ''02'' else ''00'')"
    for k
    using Some by (simp add: commandkey_def key_defs)
  have start: "take 3 (commandkey self key) = ''571''"
    by (simp add: suffix)
  have other: "take 3 k = ''570''"
    if "k \<in> {PRESS_KEY, ON_KEY, OFF_KEY, OPEN_KEY, CLOSE_KEY, STOP_KEY, POSITION_KEY @ h}" for k
    using that by (auto simp add: key_defs)
  have differs: "commandkey self key \<noteq> k"
    if "k \<in> {PRESS_KEY, ON_KEY, OFF_KEY, OPEN_KEY, CLOSE_KEY, STOP_KEY, POSITION_KEY @ h}" for k
    using other [OF that] start by auto
  have "commandkey self key \<notin> {PRESS_KEY, ON_KEY, OFF_KEY, OPEN_KEY, CLOSE_KEY, STOP_KEY}"
    "commandkey self key \<noteq> POSITION_KEY @ h"
    using differs by blast+
  then show ?thesis
    using Some by (simp add: suffix) (simp add: key_defs)
qed

theorem commandkey_encoding_witness:
  "commandkey bot0 OPEN_KEY = ''570f450105ff00''
   \<and> commandkey (bot0\<lparr>password_encoded := Some ''cbf43926''\<rparr>) ON_KEY = ''5711cbf4392601''
   \<and> commandkey (bot0\<lparr>password_encoded := Some ''cbf43926''\<rparr>) OFF_KEY = ''5711cbf4392602''
   \<and> commandkey (bot0\<lparr>password_encoded := Some ''cbf43926''\<rparr>) OPEN_KEY = ''5711cbf4392600''
   \<and> commandkey (bot0\<lparr>password_encoded := Some ''cbf43926''\<rparr>) OPEN_KEY =
       commandkey (bot0\<lparr>password_encoded := Some ''cbf43926''\<rparr>) PRESS_KEY"
  using commandkey_encoding [of bot0 OPEN_KEY "''cbf43926''" "''00''" PRESS_KEY]
    commandkey_encoding
      [of "bot0\<lparr>password_encoded := Some ''cbf43926''\<rparr>" OPEN_KEY "''cbf43926''" "''00''" PRESS_KEY]
  by (simp add: bot0_def key_defs)

text \<open>
  Claim C9. The empty string as password gives the same object as no password: the encoded
  password is \<^verbatim>\<open>None\<close>, and \<^verbatim>\<open>_commandkey\<close> returns every key unchanged, at once and
  after any \<^verbatim>\<open>_sendcommand\<close>.
\<close>

theorem empty_password_is_no_password:
  "init_device m rc (Some []) i x = init_device m rc None i x
   \<and> init_device m rc (Some []) i x =
       Inr \<lparr>interface = i, mac = m, device = None, retry_count = rc, password_encoded = None,
            \<dots> = x\<rparr>
   \<and> commandkey \<lparr>interface = i, mac = m, device = None, retry_count = rc,
                  password_encoded = None, \<dots> = x\<rparr> key = key
   \<and> commandkey (fst (snd (sendcommand T k r
        (\<lparr>interface = i, mac = m, device = None, retry_count = rc, password_encoded = None,
          \<dots> = x\<rparr>, L)))) key = key"
  by (simp add: init_device_def commandkey_def sendcommand_self)

theorem empty_password_is_no_password_witness:
  "init_device ''c8:a5:4e:10:22:f3'' 3 (Some []) None () = Inr bot0
   \<and> commandkey bot0 ON_KEY = ''570101''"
proof -
  note t = empty_password_is_no_password
    [where m = "''c8:a5:4e:10:22:f3''" and rc = 3 and i = None and x = "()" and key = ON_KEY
       and T = "flaky 0" and k = ON_KEY and r = 3 and L = log0]
  show ?thesis
    using t [THEN conjunct2, THEN conjunct1] t [THEN conjunct2, THEN conjunct2, THEN conjunct1]
    by (simp add: bot0_def ON_KEY_def)
qed

section \<open>Reverse mode and the cached position\<close>

text \<open>
  Claim C10. On a curtain in reverse mode \<^verbatim>\<open>set_position(p)\<close> caches \<open>100 - p\<close>, the
  value that is sent, and \<^verbatim>\<open>get_position\<close> returns it. So \<^verbatim>\<open>set_position(100)\<close> caches
  0 while \<^verbatim>\<open>open()\<close> caches 100, although both hand the same bytes to the device: the
  position key with \<open>00\<close> and the open key decode to the same payload, and with a
  password both are replaced by the same command.
\<close>

theorem reverse_cache_scale:
  assumes "reverse self"
  shows "get_position (fst (snd (set_position T p (self, L)))) = 100 - p
   \<and> get_position (fst (snd (set_position T 100 (self, L)))) = 0
   \<and> get_position (fst (snd (open_curtain T (self, L)))) = 100
   \<and> set_position T 100 (self, L) =
       sendcommand T (POSITION_KEY @ ''00'') (retry_count self) (self\<lparr>pos := 0\<rparr>, L)
   \<and> open_curtain T (self, L) = sendcommand T OPEN_KEY (retry_count self) (self\<lparr>pos := 100\<rparr>, L)
   \<and> a2b_hex (commandkey self (POSITION_KEY @ ''00'')) = a2b_hex (commandkey self OPEN_KEY)"
proof -
  have "a2b_hex (commandkey self (POSITION_KEY @ ''00'')) = a2b_hex (commandkey self OPEN_KEY)"
  proof (cases "password_encoded self")
    case None
    then show ?thesis
      by (simp add: commandkey_def key_defs a2b_hex_def is_ascii_def hex_val_def)
  next
    case (Some pw)
    then show ?thesis by (simp add: commandkey_def key_defs)
  qed
  then show ?thesis
    using assms
    by (simp add: get_position_def set_position_def open_curtain_def Let_def sendcommand_self
          fmt_02X_0)
qed

theorem reverse_cache_scale_witness:
  "reverse (curtain0\<lparr>reverse := True\<rparr>)
   \<and> get_position (fst (snd (set_position (flaky 0) 30 (curtain0\<lparr>reverse := True\<rparr>, log0)))) = 70
   \<and> get_position (fst (snd (set_position (flaky 0) 100 (curtain0\<lparr>reverse := True\<rparr>, log0)))) = 0
   \<and> get_position (fst (snd (open_curtain (flaky 0) (curtain0\<lparr>reverse := True\<rparr>, log0)))) = 100"
proof -
  have r: "reverse (curtain0\<lparr>reverse := True\<rparr>)" by simp
  note t = reverse_cache_scale [OF r, of "flaky 0" 30 log0]
  show ?thesis
    using r t [THEN conjunct1] t [THEN conjunct2, THEN conjunct1]
      t [THEN conjunct2, THEN conjunct2, THEN conjunct1]
    by simp
qed


section \<open>The encoded password\<close>

text \<open>A known value of the checksum, and what \<^verbatim>\<open>'%x'\<close> makes of zero.\<close>

lemma crc32_letter_a: "crc32 ''a'' = 0xE8B7BE43"
  by code_simp

lemma fmt_x_0: "fmt_x 0 = ''0''"
  by code_simp

lemma fmt_x_zero_or_no_leading_zero: "fmt_x n = ''0'' \<or> hd (fmt_x n) \<noteq> CHR ''0''"
  using fmt_x_no_leading_zero [of n] fmt_x_0 by (cases "n = 0") simp_all

text \<open>
  Claim C6. For a secret that is not empty and consists of ASCII characters, the
  constructor stores \<^verbatim>\<open>'%x'\<close> of the CRC-32 of the secret's bytes. The stored string
  denotes that checksum, consists of lowercase hexadecimal digits, has no leading zero
  (unless it is the single digit of the value zero) and so between 1 and 8 digits. It
  depends on the secret alone: another construction with the same secret, whatever its
  other arguments, stores the same string.
\<close>

theorem password_encoding_crc32:
  assumes "pw \<noteq> []" and "list_all is_ascii pw"
  shows "init_device m rc (Some pw) i x =
           Inr \<lparr>interface = i, mac = m, device = None, retry_count = rc,
                password_encoded = Some (fmt_x (unat (crc32 pw))), \<dots> = x\<rparr>
   \<and> hex_value (fmt_x (unat (crc32 pw))) = unat (crc32 pw)
   \<and> list_all is_lower_hex (fmt_x (unat (crc32 pw)))
   \<and> (fmt_x (unat (crc32 pw)) = ''0'' \<or> hd (fmt_x (unat (crc32 pw))) \<noteq> CHR ''0'')
   \<and> 1 \<le> length (fmt_x (unat (crc32 pw))) \<and> length (fmt_x (unat (crc32 pw))) \<le> 8
   \<and> map_sum id password_encoded (init_device m' rc' (Some pw) i' x') =
       map_sum id password_encoded (init_device m rc (Some pw) i x)"
proof -
  have len: "length (fmt_x (unat (crc32 pw))) \<le> 8"
    using fmt_x_length [OF unat_word32_bound, of "crc32 pw"] by simp
  have ne: "1 \<le> length (fmt_x (unat (crc32 pw)))"
    using fmt_x_nonempty [of "unat (crc32 pw)"] by (simp add: Suc_le_eq)
  show ?thesis
    using assms len ne fmt_x_zero_or_no_leading_zero [of "unat (crc32 pw)"]
    by (simp add: init_device_def encode_ascii_def crc32_mask hex_value_fmt_x fmt_x_lower_hex)
qed

text \<open>The secret \<open>a\<close> has the checksum \<open>0xE8B7BE43\<close>.\<close>

theorem password_encoding_crc32_witness:
  "init_device ''c8:a5:4e:10:22:f3'' 3 (Some ''a'') None () =
     Inr (bot0\<lparr>password_encoded := Some ''e8b7be43''\<rparr>)
   \<and> hex_value ''e8b7be43'' = unat (0xE8B7BE43 :: 32 word)"
proof -
  have ne: "''a'' \<noteq> []" by simp
  have ascii: "list_all is_ascii ''a''" by (simp add: is_ascii_def)
  have f: "fmt_x 3904355907 = ''e8b7be43''"
    by (simp add: fmt_x.simps lower_digit_def char_of_eq_iff)
  note t = password_encoding_crc32 [OF ne ascii, of "''c8:a5:4e:10:22:f3''" 3 None "()"]
  show ?thesis
    using t [THEN conjunct1] t [THEN conjunct2, THEN conjunct1]
    by (simp add: crc32_letter_a f bot0_def)
qed

section \<open>The position byte\<close>

lemma hex_value_upper_pair:
  "h < 16 \<Longrightarrow> l < 16 \<Longrightarrow> hex_value [upper_digit h, upper_digit l] = 16 * h + l"
  by (simp add: hex_value_def hex_val_upper_digit)

lemma is_hex_upper_digit: "n < 16 \<Longrightarrow> is_hex (upper_digit n)"
  by (simp add: is_hex_def hex_val_upper_digit)

text \<open>
  Claim C7. For a position \<open>p\<close> from 0 to 100, \<^verbatim>\<open>set_position\<close> hands to
  \<^verbatim>\<open>_sendcommand\<close> the position key followed by \<^verbatim>\<open>'%0.2X'\<close> of the device-facing
  position, which is \<open>p\<close>, or \<open>100 - p\<close> in reverse mode. That rendering has exactly
  two hexadecimal digits and denotes the device-facing position, so the payload decodes
  to the six bytes of the key and one byte with that position.
\<close>

theorem set_position_encoding:
  assumes "0 \<le> p" and "p \<le> 100"
  shows "set_position T p (self, L) =
           sendcommand T (POSITION_KEY @ fmt_02X (if reverse self then 100 - p else p))
             (retry_count self) (self\<lparr>pos := (if reverse self then 100 - p else p)\<rparr>, L)
   \<and> length (fmt_02X (if reverse self then 100 - p else p)) = 2
   \<and> list_all is_hex (fmt_02X (if reverse self then 100 - p else p))
   \<and> int (hex_value (fmt_02X (if reverse self then 100 - p else p))) =
       (if reverse self then 100 - p else p)
   \<and> a2b_hex (POSITION_KEY @ fmt_02X (if reverse self then 100 - p else p)) =
       Inr (map char_of [0x57, 0x0F, 0x45, 0x01, 0x05, 0xFF,
              nat (if reverse self then 100 - p else p)])"
proof -
  define q where "q = (if reverse self then 100 - p else p)"
  have q: "0 \<le> q" "q < 256" using assms by (simp_all add: q_def)
  have h: "nat q div 16 < 16" and l: "nat q mod 16 < 16" using q by simp_all
  have f: "fmt_02X q = [upper_digit (nat q div 16), upper_digit (nat q mod 16)]"
    using fmt_02X_byte [OF q] .
  have v: "int (hex_value (fmt_02X q)) = q"
    using q by (simp add: f hex_value_upper_pair [OF h l])
  have b: "a2b_hex (POSITION_KEY @ fmt_02X q) =
      Inr (map char_of [0x57, 0x0F, 0x45, 0x01, 0x05, 0xFF, nat q])"
    using a2b_hex_position [OF h l] by (simp add: f)
  have s: "set_position T p (self, L) =
      sendcommand T (POSITION_KEY @ fmt_02X q) (retry_count self) (self\<lparr>pos := q\<rparr>, L)"
    by (simp add: set_position_def Let_def q_def)
  have "list_all is_hex (fmt_02X q)"
    by (simp add: f is_hex_upper_digit [OF h] is_hex_upper_digit [OF l])
  then show ?thesis
    using s v b by (simp add: f flip: q_def)
qed

text \<open>Position 5 is rendered as \<open>05\<close>; in reverse mode it becomes 95, rendered \<open>5F\<close>.\<close>

theorem set_position_encoding_witness:
  "fmt_02X 5 = ''05'' \<and> length (fmt_02X 5) = 2
   \<and> a2b_hex (POSITION_KEY @ fmt_02X 5) = Inr (map char_of [0x57, 0x0F, 0x45, 0x01, 0x05, 0xFF, 5 :: nat])
   \<and> fmt_02X (100 - 5) = ''5F''"
proof -
  have p: "(0::int) \<le> 5" "(5::int) \<le> 100" by simp_all
  have rev: "\<not> reverse curtain0" by (simp add: curtain0_def)
  have f: "fmt_02X 5 = ''05''" "fmt_02X (100 - 5) = ''5F''" by code_simp+
  note t = set_position_encoding [OF p, of "flaky 0" curtain0 log0]
  show ?thesis
    using f rev t [THEN conjunct2, THEN conjunct1]
      t [THEN conjunct2, THEN conjunct2, THEN conjunct2, THEN conjunct2]
    by simp
qed


section \<open>Decoding advertisements\<close>

lemma handle_scan_data_filter:
  "handle_scan_data data driver = handle_scan_data (filter (\<lambda>e. fst e = 22) data) driver"
proof (induction data arbitrary: driver)
  case Nil
  then show ?case by simp
next
  case (Cons e data)
  obtain adtype desc "value" where e: "e = (adtype, desc, value)" by (cases e)
  show ?case
  proof (cases "adtype = 22")
    case True
    then show ?thesis
      using Cons.IH by (simp add: e Let_def split: sum.splits option.splits)
  next
    case False
    then show ?thesis using Cons.IH by (simp add: e)
  qed
qed

lemma is_ascii_hex: "hex_val c = Some v \<Longrightarrow> is_ascii c"
  using hex_char_props by blast

text \<open>
  Claim C8. The frame comes from an address that equals the device address up to case,
  and its scan data hold one entry of type 22, whose value ends in six hexadecimal digits
  after ASCII characters. Then \<^verbatim>\<open>handleDiscovery\<close> raises nothing and overwrites the
  three cached fields: the battery with the value of the digits at \<^verbatim>\<open>[-6:-4]\<close>, the
  position with that of \<^verbatim>\<open>[-4:-2]\<close>, the light level with that of \<^verbatim>\<open>[-2:]\<close>.
\<close>

theorem handleDiscovery_decodes_trailing_pairs:
  assumes ascii: "list_all is_ascii pre"
    and battery: "hex_val a1 = Some x1" "hex_val a2 = Some x2"
    and position: "hex_val b1 = Some y1" "hex_val b2 = Some y2"
    and light: "hex_val c1 = Some z1" "hex_val c2 = Some z2"
    and match: "lower (get_mac driver) = lower (addr dev)"
    and data: "filter (\<lambda>e. fst e = 22) (scan_data dev) = [(22, desc, pre @ [a1, a2, b1, b2, c1, c2])]"
  shows "handleDiscovery driver dev =
           (driver\<lparr>battery_percent := int (16 * x1 + x2), pos := int (16 * y1 + y2),
                   light_level := int (16 * z1 + z2)\<rparr>, None)"
proof -
  have all: "list_all is_ascii (pre @ [a1, a2, b1, b2, c1, c2])"
    using ascii is_ascii_hex [OF battery(1)] is_ascii_hex [OF battery(2)]
      is_ascii_hex [OF position(1)] is_ascii_hex [OF position(2)]
      is_ascii_hex [OF light(1)] is_ascii_hex [OF light(2)]
    by simp
  have "handle_scan_data (scan_data dev) driver =
      handle_scan_data [(22, desc, pre @ [a1, a2, b1, b2, c1, c2])] driver"
    using handle_scan_data_filter [of "scan_data dev" driver] data by simp
  also have "\<dots> = (driver\<lparr>battery_percent := int (16 * x1 + x2), pos := int (16 * y1 + y2),
                   light_level := int (16 * z1 + z2)\<rparr>, None)"
    using handleDiscovery_decode [OF all refl battery position light, of desc "[]" driver]
    by simp
  finally show ?thesis using match by (simp add: handleDiscovery_def)
qed

text \<open>
  A buffer that ends in \<open>321E32\<close>, from the device's address in capitals: battery 50,
  position 30, light level 50.
\<close>

theorem handleDiscovery_decodes_trailing_pairs_witness:
  "handleDiscovery curtain0 (frame ''3d0d48321E32'') =
     (curtain0\<lparr>battery_percent := 50, pos := 30, light_level := 50\<rparr>, None)"
proof -
  have ascii: "list_all is_ascii ''3d0d48''" by (simp add: is_ascii_def)
  have h: "hex_val CHR ''3'' = Some 3" "hex_val CHR ''2'' = Some 2"
    "hex_val CHR ''1'' = Some 1" "hex_val CHR ''E'' = Some 14"
    by (simp_all add: hex_val_def)
  have match: "lower (get_mac curtain0) = lower (addr (frame ''3d0d48321E32''))"
    by code_simp
  have data: "filter (\<lambda>e. fst e = 22) (scan_data (frame ''3d0d48321E32'')) =
      [(22, ''16b Service Data'', ''3d0d48'' @ ''321E32'')]"
    by (simp add: frame_def)
  show ?thesis
    using handleDiscovery_decodes_trailing_pairs
      [OF ascii h(1) h(2) h(3) h(4) h(1) h(2) match data]
    by simp
qed

text \<open>
  Claim C1 says that a malformed buffer of type 22 is dropped silently, with no exception
  and the three cached fields unchanged. The code has no handler around the decoding, and
  it assigns the fields one by one. With the pair \<open>ZZ\<close> in the place of the position the
  battery is already overwritten when the \<^verbatim>\<open>ValueError\<close> leaves \<^verbatim>\<open>handleDiscovery\<close>;
  and a buffer of five hexadecimal digits is not rejected at all, since the slices of a
  short buffer are only shorter.
\<close>

theorem malformed_frame_counterexample:
  "handleDiscovery curtain0 (frame ''3d0d4832ZZ32'') =
     (curtain0\<lparr>battery_percent := 50\<rparr>, Some ValueError)
   \<and> battery_percent (curtain0\<lparr>battery_percent := 50\<rparr>) \<noteq> battery_percent curtain0
   \<and> handleDiscovery curtain0 (frame ''12345'') =
     (curtain0\<lparr>battery_percent := 1, pos := 35, light_level := 69\<rparr>, None)"
  by code_simp


text \<open>Facts for the amended claim.\<close>

lemma handle_scan_data_prefix:
  "list_all (\<lambda>e. fst e \<noteq> 22) before \<Longrightarrow>
   handle_scan_data (before @ data) driver = handle_scan_data data driver"
  by (induction before) auto

lemma py_int16_empty: "py_int16 [] = None"
  by (simp add: py_int16_def strip_sign_def strip_0x_def)

lemma py_slice_short: "length xs \<le> 4 \<Longrightarrow> py_slice xs (- 6) (Some (- 4)) = []"
  by (simp add: py_slice_def slice_index_def Let_def)

text \<open>
  Claim C1, amended. The frame comes from the device's address, and \<open>value\<close> is its
  first buffer of type 22, of ASCII characters. When \<^verbatim>\<open>int(., 16)\<close> rejects one of the
  three slices, the \<^verbatim>\<open>ValueError\<close> leaves \<^verbatim>\<open>handleDiscovery\<close>, the rest of the scan
  data is not looked at, and the fields assigned before the rejected slice keep their new
  values: nothing is changed when the battery slice is rejected, the battery when the
  position slice is, battery and position when the light slice is. A buffer of at most
  four characters has an empty battery slice and so changes nothing.
\<close>

theorem handleDiscovery_rejected_frame:
  assumes match: "lower (get_mac driver) = lower (addr dev)"
    and data: "scan_data dev = before @ (22, desc, value) # rest"
    and before: "list_all (\<lambda>e. fst e \<noteq> 22) before"
    and ascii: "list_all is_ascii value"
  shows "(py_int16 (py_slice value (- 6) (Some (- 4))) = None \<longrightarrow>
            handleDiscovery driver dev = (driver, Some ValueError))
   \<and> (py_int16 (py_slice value (- 6) (Some (- 4))) = Some b
        \<and> py_int16 (py_slice value (- 4) (Some (- 2))) = None \<longrightarrow>
            handleDiscovery driver dev = (driver\<lparr>battery_percent := b\<rparr>, Some ValueError))
   \<and> (py_int16 (py_slice value (- 6) (Some (- 4))) = Some b
        \<and> py_int16 (py_slice value (- 4) (Some (- 2))) = Some p
        \<and> py_int16 (py_slice value (- 2) None) = None \<longrightarrow>
            handleDiscovery driver dev =
              (driver\<lparr>battery_percent := b, pos := p\<rparr>, Some ValueError))
   \<and> (length value \<le> 4 \<longrightarrow> handleDiscovery driver dev = (driver, Some ValueError))"
proof -
  have "handleDiscovery driver dev = handle_scan_data (scan_data dev) driver"
    using match by (simp add: handleDiscovery_def)
  also have "\<dots> = handle_scan_data ((22, desc, value) # rest) driver"
    unfolding data by (rule handle_scan_data_prefix [OF before])
  finally have h:
    "handleDiscovery driver dev = handle_scan_data ((22, desc, value) # rest) driver" .
  have short: "length value \<le> 4 \<Longrightarrow> py_int16 (py_slice value (- 6) (Some (- 4))) = None"
    by (simp add: py_slice_short py_int16_empty)
  show ?thesis
    using ascii short by (auto simp add: h encode_ascii_def)
qed

theorem handleDiscovery_rejected_frame_witness:
  "handleDiscovery curtain0 (frame ''3d0d48ZZ1E32'') = (curtain0, Some ValueError)
   \<and> handleDiscovery curtain0 (frame ''3d0d4832ZZ32'') =
       (curtain0\<lparr>battery_percent := 50\<rparr>, Some ValueError)
   \<and> handleDiscovery curtain0 (frame ''3d0d48321EZZ'') =
       (curtain0\<lparr>battery_percent := 50, pos := 30\<rparr>, Some ValueError)
   \<and> handleDiscovery curtain0 (frame ''3d0d'') = (curtain0, Some ValueError)"
proof -
  have match: "lower (get_mac curtain0) = lower (addr (frame v))" for v
    by (simp add: frame_def get_mac_def curtain0_def) code_simp
  have data: "scan_data (frame v) = [(1, ''Flags'', ''06'')] @ (22, ''16b Service Data'', v) # []"
    for v
    by (simp add: frame_def)
  have before: "list_all (\<lambda>e. fst e \<noteq> 22) [(1 :: int, ''Flags'', ''06'')]"
    by simp
  have ascii: "list_all is_ascii ''3d0d48ZZ1E32''" "list_all is_ascii ''3d0d4832ZZ32''"
    "list_all is_ascii ''3d0d48321EZZ''" "list_all is_ascii ''3d0d''"
    by (simp_all add: is_ascii_def)
  have slices:
    "py_int16 (py_slice ''3d0d48ZZ1E32'' (- 6) (Some (- 4))) = None"
    "py_int16 (py_slice ''3d0d4832ZZ32'' (- 6) (Some (- 4))) = Some 50"
    "py_int16 (py_slice ''3d0d4832ZZ32'' (- 4) (Some (- 2))) = None"
    "py_int16 (py_slice ''3d0d48321EZZ'' (- 6) (Some (- 4))) = Some 50"
    "py_int16 (py_slice ''3d0d48321EZZ'' (- 4) (Some (- 2))) = Some 30"
    "py_int16 (py_slice ''3d0d48321EZZ'' (- 2) None) = None"
    by code_simp+
  note a = handleDiscovery_rejected_frame [OF match data before ascii(1), of 0 0]
  note b = handleDiscovery_rejected_frame [OF match data before ascii(2), of 50 0]
  note c = handleDiscovery_rejected_frame [OF match data before ascii(3), of 50 30]
  note d = handleDiscovery_rejected_frame [OF match data before ascii(4), of 0 0]
  show ?thesis
    using slices a [THEN conjunct1] b [THEN conjunct2, THEN conjunct1]
      c [THEN conjunct2, THEN conjunct2, THEN conjunct1]
      d [THEN conjunct2, THEN conjunct2, THEN conjunct2]
    by simp
qed

end
